theory Spec2Isabelle
  imports Main
begin

section \<open>Data model of \<^verbatim>\<open>backend/server.py\<close>\<close>

text \<open>
  Every datetime the server stores or compares is a midnight (UTC): \<^verbatim>\<open>today\<close> is
  normalised with \<^verbatim>\<open>replace(hour=0, ...)\<close>, a start date is parsed from
  \<^verbatim>\<open>%Y-%m-%d\<close>, and everything else is obtained by adding \<^verbatim>\<open>timedelta(days=n)\<close>.
  A date is therefore the number of its day, counted as \<^verbatim>\<open>toordinal()\<close> counts it:
  day 1 is 0001-01-01 (\<^verbatim>\<open>datetime.min\<close>) and day 3652059 is 9999-12-31, the last day a
  \<^verbatim>\<open>datetime\<close> can hold. A Python \<^verbatim>\<open>int\<close> is an \<open>int\<close>.
\<close>

type_synonym date = int

definition date_min :: date where
  "date_min = 1"

definition date_max :: date where
  "date_max = 3652059"

text \<open>The pydantic model \<^verbatim>\<open>Booking\<close>; the field \<^verbatim>\<open>id\<close> is \<open>id'\<close> here.\<close>

record booking =
  id' :: string
  user_id :: int
  username :: "string option"
  first_name :: "string option"
  masks_count :: int
  days_count :: int
  start_date :: date
  end_date :: date
  price :: int
  delivery_address :: string
  status :: string
  created_at :: int

text \<open>
  One entry of the dictionary \<^verbatim>\<open>user_sessions\<close>: a dictionary with the optional keys
  \<^verbatim>\<open>"masks_count"\<close>, \<^verbatim>\<open>"days_count"\<close> and \<^verbatim>\<open>"start_date"\<close>.
\<close>

record session =
  s_masks_count :: "int option"
  s_days_count :: "int option"
  s_start_date :: "date option"

text \<open>
  The mutable state of the server: the global \<^verbatim>\<open>user_sessions\<close> and the collection
  \<^verbatim>\<open>db.bookings\<close>, in insertion order.
\<close>

record app_state =
  user_sessions :: "int \<rightharpoonup> session"
  bookings :: "booking list"

text \<open>The part of \<^verbatim>\<open>update.effective_user\<close> the handlers read.\<close>

record tg_user =
  u_id :: int
  u_username :: "string option"
  u_first_name :: "string option"

text \<open>
  The exceptions the modelled code raises: Python's \<^verbatim>\<open>KeyError\<close> on a missing
  dictionary key, \<^verbatim>\<open>OverflowError\<close> from the date arithmetic, and
  \<^verbatim>\<open>HTTPException(status_code, detail)\<close>.
\<close>

datatype error = KeyError | OverflowError | HTTPException nat string

text \<open>
  The expression \<^verbatim>\<open>d + timedelta(days=n)\<close>. The constructor \<^verbatim>\<open>timedelta\<close> raises
  \<^verbatim>\<open>OverflowError\<close> when the magnitude of \<open>n\<close> exceeds 999999999, and the addition
  raises it when the sum is not a day a \<^verbatim>\<open>datetime\<close> can hold.
\<close>

definition date_add :: "date \<Rightarrow> int \<Rightarrow> error + date" where
  "date_add d n =
     (if \<bar>n\<bar> > 999999999 then Inl OverflowError
      else if date_min \<le> d + n \<and> d + n \<le> date_max then Inr (d + n)
      else Inl OverflowError)"

section \<open>Pricing configuration\<close>

definition PRICES :: "int \<rightharpoonup> (int \<rightharpoonup> int)" where
  "PRICES = [1 \<mapsto> [1 \<mapsto> 70, 2 \<mapsto> 130, 3 \<mapsto> 180],
             2 \<mapsto> [1 \<mapsto> 140, 2 \<mapsto> 260, 3 \<mapsto> 360]]"

text \<open>The expression \<^verbatim>\<open>PRICES[masks_count][days_count]\<close>.\<close>

definition PRICES_at :: "int \<Rightarrow> int \<Rightarrow> error + int" where
  "PRICES_at masks days =
     (case PRICES masks of
        None \<Rightarrow> Inl KeyError
      | Some row \<Rightarrow> (case row days of None \<Rightarrow> Inl KeyError | Some p \<Rightarrow> Inr p))"

section \<open>\<^verbatim>\<open>get_available_dates\<close>\<close>

text \<open>
  The \<^verbatim>\<open>$match\<close> stage of the aggregation: the status filter and the three clauses of
  \<^verbatim>\<open>$or\<close>, in the order of the source.
\<close>

definition status_in :: "booking \<Rightarrow> bool" where
  "status_in b \<longleftrightarrow> status b = ''pending'' \<or> status b = ''confirmed''"

definition match_period :: "date \<Rightarrow> date \<Rightarrow> booking \<Rightarrow> bool" where
  "match_period check_date end_d b \<longleftrightarrow>
     status_in b \<and>
     ((start_date b < end_d \<and> start_date b \<ge> check_date) \<or>
      (end_date b > check_date \<and> end_date b \<le> end_d) \<or>
      (start_date b \<le> check_date \<and> end_date b \<ge> end_d))"

text \<open>
  The \<^verbatim>\<open>$group\<close> stage and the line
  \<^verbatim>\<open>booked_masks = result[0]["total_masks"] if result else 0\<close>: the aggregation yields
  no group when no document matches. (The \<^verbatim>\<open>count_documents\<close> result
  \<^verbatim>\<open>existing_bookings\<close> is computed by the source and never read.)
\<close>

definition booked_masks :: "booking list \<Rightarrow> date \<Rightarrow> date \<Rightarrow> int" where
  "booked_masks bs check_date end_d =
     (let matched = filter (match_period check_date end_d) bs
      in if matched = [] then 0 else sum_list (map masks_count matched))"

text \<open>
  The loop \<^verbatim>\<open>for i in range(1, 31)\<close> with its \<^verbatim>\<open>break\<close>, as a recursion over the
  remaining values of \<^verbatim>\<open>i\<close>; the accumulator is \<^verbatim>\<open>available_dates\<close>.
\<close>

fun scan_dates :: "booking list \<Rightarrow> date \<Rightarrow> int \<Rightarrow> int \<Rightarrow> int list \<Rightarrow> date list \<Rightarrow> error + date list" where
  "scan_dates bs today masks_needed days_needed [] available_dates = Inr available_dates"
| "scan_dates bs today masks_needed days_needed (i # rest) available_dates =
     (case date_add today i of
        Inl e \<Rightarrow> Inl e
      | Inr check_date \<Rightarrow>
          (case date_add check_date days_needed of
             Inl e \<Rightarrow> Inl e
           | Inr end_d \<Rightarrow>
               (let available_dates' =
                      (if booked_masks bs check_date end_d + masks_needed \<le> 2
                       then available_dates @ [check_date] else available_dates)
                in if length available_dates' \<ge> 7 then Inr available_dates'
                   else scan_dates bs today masks_needed days_needed rest available_dates')))"

text \<open>
  \<^verbatim>\<open>today\<close> is the clock reading, a parameter. The function has no \<^verbatim>\<open>raise\<close> of its own
  and no dictionary lookup: the only exception is that of the two additions.
\<close>

definition get_available_dates :: "booking list \<Rightarrow> date \<Rightarrow> int \<Rightarrow> int \<Rightarrow> error + date list" where
  "get_available_dates bs today masks_needed days_needed =
     scan_dates bs today masks_needed days_needed [1..30] []"

section \<open>The Telegram handlers\<close>

text \<open>
  The callback data of the intake dialogue, after the source's own decoding
  (\<^verbatim>\<open>data == "start_booking"\<close>, \<^verbatim>\<open>int(data.split("_")[1])\<close>,
  \<^verbatim>\<open>datetime.strptime(date_str, "%Y-%m-%d")\<close>). The operator's \<^verbatim>\<open>admin_*\<close> callbacks
  only read the collection and are not part of the dialogue.
\<close>

datatype callback = StartBooking | Masks int | Days int | Date date

text \<open>
  What a handler sends back to the requester, without the wording: the keyboards with
  their payload, the text \<^verbatim>\<open>"Session expired. Start again with /start"\<close>
  (\<open>SessionExpired\<close>), the no-dates text, the request for the address and the confirmation.
\<close>

datatype reply =
    ChooseMasks
  | ChooseDays int int int
  | SessionExpired
  | NoFreeDates
  | ChooseDate "date list" int
  | AskAddress date date
  | BookingAccepted booking

text \<open>A handler raises, replies, or returns without sending anything.\<close>

datatype outcome = Raised error | Replied reply | Silent

definition set_days_count :: "int \<Rightarrow> session \<Rightarrow> session" where
  "set_days_count n s = s\<lparr>s_days_count := Some n\<rparr>"

definition set_start_date :: "date \<Rightarrow> session \<Rightarrow> session" where
  "set_start_date d s = s\<lparr>s_start_date := Some d\<rparr>"

text \<open>
  \<^verbatim>\<open>handle_callback\<close>, branch by branch. A dictionary write that precedes a raise
  stays: the state returned with \<open>Raised\<close> is the state at the raise. The date of a
  \<open>Date\<close> callback is one that \<^verbatim>\<open>strptime\<close> has parsed.
\<close>

fun handle_callback :: "app_state \<Rightarrow> date \<Rightarrow> int \<Rightarrow> callback \<Rightarrow> outcome \<times> app_state" where
  "handle_callback st today uid StartBooking = (Replied ChooseMasks, st)"
| "handle_callback st today uid (Masks masks) =
     (let st' = st\<lparr>user_sessions := (user_sessions st)(uid \<mapsto>
                   \<lparr>s_masks_count = Some masks, s_days_count = None, s_start_date = None\<rparr>)\<rparr>
      in case PRICES_at masks 1 of Inl e \<Rightarrow> (Raised e, st') | Inr p1 \<Rightarrow>
         (case PRICES_at masks 2 of Inl e \<Rightarrow> (Raised e, st') | Inr p2 \<Rightarrow>
         (case PRICES_at masks 3 of Inl e \<Rightarrow> (Raised e, st') | Inr p3 \<Rightarrow>
            (Replied (ChooseDays p1 p2 p3), st'))))"
| "handle_callback st today uid (Days days) =
     (case user_sessions st uid of
        None \<Rightarrow> (Replied SessionExpired, st)
      | Some s \<Rightarrow>
          (let st' = st\<lparr>user_sessions := (user_sessions st)(uid \<mapsto> set_days_count days s)\<rparr>
           in case s_masks_count s of
                None \<Rightarrow> (Raised KeyError, st')
              | Some masks \<Rightarrow>
                  (case get_available_dates (bookings st') today masks days of
                     Inl e \<Rightarrow> (Raised e, st')
                   | Inr available_dates \<Rightarrow>
                       if available_dates = [] then (Replied NoFreeDates, st')
                       else (case PRICES_at masks days of
                               Inl e \<Rightarrow> (Raised e, st')
                             | Inr p \<Rightarrow> (Replied (ChooseDate available_dates p), st')))))"
| "handle_callback st today uid (Date start) =
     (case user_sessions st uid of
        None \<Rightarrow> (Replied SessionExpired, st)
      | Some s \<Rightarrow>
          (let st' = st\<lparr>user_sessions := (user_sessions st)(uid \<mapsto> set_start_date start s)\<rparr>
           in case s_days_count s of
                None \<Rightarrow> (Raised KeyError, st')
              | Some days \<Rightarrow>
                  (case date_add start days of
                     Inl e \<Rightarrow> (Raised e, st')
                   | Inr end_d \<Rightarrow> (Replied (AskAddress start end_d), st'))))"

text \<open>
  \<^verbatim>\<open>handle_text\<close>. The identifier and the creation time of the new \<^verbatim>\<open>Booking\<close> come
  from \<^verbatim>\<open>uuid.uuid4()\<close> and the clock: parameters. The status is the model's default
  \<^verbatim>\<open>"pending"\<close>. \<^verbatim>\<open>send_admin_notification\<close> catches every exception and touches
  neither the sessions nor the collection.
\<close>

definition handle_text :: "app_state \<Rightarrow> tg_user \<Rightarrow> string \<Rightarrow> string \<Rightarrow> int \<Rightarrow> outcome \<times> app_state" where
  "handle_text st user text new_id now =
     (case user_sessions st (u_id user) of
        None \<Rightarrow> (Silent, st)
      | Some s \<Rightarrow>
          (case s_start_date s of
             None \<Rightarrow> (Silent, st)
           | Some start \<Rightarrow>
               (case s_days_count s of
                  None \<Rightarrow> (Raised KeyError, st)
                | Some days \<Rightarrow>
                    (case s_masks_count s of
                       None \<Rightarrow> (Raised KeyError, st)
                     | Some masks \<Rightarrow>
                         (case date_add start days of
                            Inl e \<Rightarrow> (Raised e, st)
                          | Inr end_d \<Rightarrow>
                              (case PRICES_at masks days of
                                 Inl e \<Rightarrow> (Raised e, st)
                               | Inr p \<Rightarrow>
                                   (let b = \<lparr>id' = new_id, user_id = u_id user,
                                             username = u_username user,
                                             first_name = u_first_name user,
                                             masks_count = masks, days_count = days,
                                             start_date = start, end_date = end_d,
                                             price = p, delivery_address = text,
                                             status = ''pending'', created_at = now\<rparr>
                                    in (Replied (BookingAccepted b),
                                        st\<lparr>bookings := bookings st @ [b],
                                           user_sessions :=
                                             (user_sessions st)(u_id user := None)\<rparr>))))))))"

section \<open>The HTTP routes that write\<close>

text \<open>
  \<^verbatim>\<open>update_one({"id": booking_id}, {"$set": {"status": status}})\<close>: the first document
  with that id gets the status; the first component is \<^verbatim>\<open>matched_count\<close>.
\<close>

fun update_one :: "booking list \<Rightarrow> string \<Rightarrow> string \<Rightarrow> nat \<times> booking list" where
  "update_one [] booking_id new_status = (0, [])"
| "update_one (b # bs) booking_id new_status =
     (if id' b = booking_id then (1, b\<lparr>status := new_status\<rparr> # bs)
      else (case update_one bs booking_id new_status of (n, bs') \<Rightarrow> (n, b # bs')))"

text \<open>
  \<^verbatim>\<open>delete_one({"id": booking_id})\<close>: the first document with that id is removed; the
  first component is \<^verbatim>\<open>deleted_count\<close>.
\<close>

fun delete_one :: "booking list \<Rightarrow> string \<Rightarrow> nat \<times> booking list" where
  "delete_one [] booking_id = (0, [])"
| "delete_one (b # bs) booking_id =
     (if id' b = booking_id then (1, bs)
      else (case delete_one bs booking_id of (n, bs') \<Rightarrow> (n, b # bs')))"

definition update_booking_status :: "booking list \<Rightarrow> string \<Rightarrow> string \<Rightarrow> (error + string) \<times> booking list" where
  "update_booking_status bs booking_id new_status =
     (case update_one bs booking_id new_status of
        (matched_count, bs') \<Rightarrow>
          if matched_count = 0 then (Inl (HTTPException 404 ''Booking not found''), bs')
          else (Inr ''updated'', bs'))"

definition delete_booking :: "booking list \<Rightarrow> string \<Rightarrow> (error + string) \<times> booking list" where
  "delete_booking bs booking_id =
     (case delete_one bs booking_id of
        (deleted_count, bs') \<Rightarrow>
          if deleted_count = 0 then (Inl (HTTPException 404 ''Booking not found''), bs')
          else (Inr ''deleted'', bs'))"

section \<open>The capacity invariant of the specification\<close>

text \<open>
  The usage at an instant \<open>t\<close>: the sum of \<^verbatim>\<open>masks_count\<close> over the bookings with status
  pending or confirmed whose interval \<open>[start_date, end_date)\<close> contains \<open>t\<close>. All
  interval ends are midnights, so the usage is constant over a day and an instant is
  given by its day.
\<close>

definition covers :: "booking \<Rightarrow> date \<Rightarrow> bool" where
  "covers b t \<longleftrightarrow> status_in b \<and> start_date b \<le> t \<and> t < end_date b"

definition usage_at :: "booking list \<Rightarrow> date \<Rightarrow> int" where
  "usage_at bs t = sum_list (map masks_count (filter (\<lambda>b. covers b t) bs))"

definition capacity_invariant :: "booking list \<Rightarrow> bool" where
  "capacity_invariant bs \<longleftrightarrow> (\<forall>t. usage_at bs t \<le> 2)"

text \<open>The half-open overlap of the specification, for comparison with \<open>match_period\<close>.\<close>

definition half_open_overlap :: "date \<Rightarrow> date \<Rightarrow> booking \<Rightarrow> bool" where
  "half_open_overlap window_start window_end b \<longleftrightarrow>
     start_date b < window_end \<and> end_date b > window_start"

section \<open>Example data\<close>

text \<open>
  The scenario of the specification: reservation A takes both masks on days 10 to 12.
\<close>

definition booking_A :: booking where
  "booking_A = \<lparr>id' = ''A'', user_id = 1, username = None, first_name = None,
     masks_count = 2, days_count = 2, start_date = 10, end_date = 12, price = 260,
     delivery_address = ''Addr A'', status = ''pending'', created_at = 0\<rparr>"

text \<open>Ten such reservations of three days each, back to back from day 9 to day 42.\<close>

definition full_month :: "booking list" where
  "full_month = map (\<lambda>k. booking_A\<lparr>days_count := 3, start_date := 9 + 3 * k,
                                      end_date := 12 + 3 * k, price := 360\<rparr>) [0..10]"

text \<open>A requester, and the reservation the dialogue commits for a chosen start date.\<close>

definition requester :: tg_user where
  "requester = \<lparr>u_id = 7, u_username = Some ''guest'', u_first_name = Some ''Ann''\<rparr>"

definition booking_of_requester :: "date \<Rightarrow> booking" where
  "booking_of_requester start = \<lparr>id' = ''B'', user_id = 7, username = Some ''guest'',
     first_name = Some ''Ann'', masks_count = 1, days_count = 2, start_date = start,
     end_date = start + 2, price = 130, delivery_address = ''Addr 1'', status = ''pending'',
     created_at = 0\<rparr>"

text \<open>The states of the dialogue of that requester, beside reservation A.\<close>

definition no_state :: app_state where
  "no_state = \<lparr>user_sessions = Map.empty, bookings = []\<rparr>"

definition state_idle :: app_state where
  "state_idle = \<lparr>user_sessions = Map.empty, bookings = [booking_A]\<rparr>"

definition state_after_masks :: app_state where
  "state_after_masks =
     \<lparr>user_sessions = [7 \<mapsto> \<lparr>s_masks_count = Some 1, s_days_count = None,
                                s_start_date = None\<rparr>],
      bookings = [booking_A]\<rparr>"

definition state_after_days :: app_state where
  "state_after_days =
     \<lparr>user_sessions = [7 \<mapsto> \<lparr>s_masks_count = Some 1, s_days_count = Some 2,
                                s_start_date = None\<rparr>],
      bookings = [booking_A]\<rparr>"

definition state_at_address :: "date \<Rightarrow> app_state" where
  "state_at_address start =
     \<lparr>user_sessions = [7 \<mapsto> \<lparr>s_masks_count = Some 1, s_days_count = Some 2,
                                s_start_date = Some start\<rparr>],
      bookings = [booking_A]\<rparr>"

text \<open>A second requester (3) in the middle of a dialogue of their own.\<close>

definition state_two_requesters :: app_state where
  "state_two_requesters =
     \<lparr>user_sessions = [7 \<mapsto> \<lparr>s_masks_count = Some 1, s_days_count = Some 2,
                                s_start_date = Some 12\<rparr>,
                       3 \<mapsto> \<lparr>s_masks_count = Some 2, s_days_count = Some 1,
                                s_start_date = None\<rparr>],
      bookings = [booking_A]\<rparr>"

section \<open>The scan of \<^verbatim>\<open>get_available_dates\<close>\<close>

lemma booked_masks_sum:
  "booked_masks bs c e = sum_list (map masks_count (filter (match_period c e) bs))"
  by (simp add: booked_masks_def Let_def)

subsection \<open>The date arithmetic\<close>

lemma date_add_Inr:
  "date_add d n = Inr e \<Longrightarrow> e = d + n \<and> date_min \<le> d + n \<and> d + n \<le> date_max"
  by (auto simp: date_add_def split: if_splits)

lemma date_add_in_range:
  assumes "\<bar>n\<bar> \<le> 999999999" and "date_min \<le> d + n" and "d + n \<le> date_max"
  shows "date_add d n = Inr (d + n)"
  using assms by (simp add: date_add_def)

lemma date_add_out_of_range:
  assumes "d + n < date_min \<or> date_max < d + n"
  shows "date_add d n = Inl OverflowError"
  using assms by (auto simp: date_add_def)

text \<open>
  With the clock in range and the first and the last window end in range, both additions
  of every iteration succeed.
\<close>

lemma scan_additions_in_range:
  assumes "date_min \<le> today" and "today + 30 \<le> date_max"
    and "date_min \<le> today + 1 + d" and "today + 30 + d \<le> date_max"
    and "i \<in> set [1..30]"
  shows "date_add today i = Inr (today + i) \<and> date_add (today + i) d = Inr (today + i + d)"
proof -
  from assms(5) have i: "1 \<le> i" "i \<le> 30" by simp_all
  have "\<bar>d\<bar> \<le> 999999999"
    using assms(1-4) by (simp add: date_min_def date_max_def)
  moreover have "\<bar>i\<bar> \<le> 999999999"
    using i by simp
  ultimately show ?thesis
    using assms(1-4) i by (simp add: date_add_in_range)
qed

subsection \<open>The loop\<close>

text \<open>
  The loop appends the candidates that pass the test and stops at seven: when it returns,
  it has computed the first seven of the filtered candidates.
\<close>

lemma scan_dates_take:
  "length acc < 7 \<Longrightarrow> scan_dates bs today m d cands acc = Inr ds \<Longrightarrow>
   ds = acc @ take (7 - length acc)
       (filter (\<lambda>c. booked_masks bs c (c + d) + m \<le> 2) (map (\<lambda>i. today + i) cands))"
proof (induction cands arbitrary: acc)
  case Nil
  then show ?case by simp
next
  case (Cons i rest)
  from Cons.prems(2) obtain c e where c: "date_add today i = Inr c"
    and e: "date_add c d = Inr e"
    by (auto split: sum.splits)
  from c have c_eq: "c = today + i" by (simp add: date_add_Inr)
  from e have e_eq: "e = today + i + d" by (simp add: date_add_Inr c_eq)
  show ?case
  proof (cases "booked_masks bs (today + i) (today + i + d) + m \<le> 2")
    case True
    show ?thesis
    proof (cases "length acc = 6")
      case True
      with \<open>booked_masks bs (today + i) (today + i + d) + m \<le> 2\<close> Cons.prems(2) c e
      show ?thesis
        by (simp add: Let_def c_eq e_eq)
    next
      case False
      with Cons.prems have short: "length (acc @ [today + i]) < 7" by simp
      have step: "scan_dates bs today m d rest (acc @ [today + i]) = Inr ds"
        using Cons.prems True False c e by (simp add: Let_def c_eq e_eq)
      have "7 - length acc = Suc (7 - length (acc @ [today + i]))"
        using Cons.prems by simp
      with True Cons.IH [OF short step] show ?thesis
        by simp
    qed
  next
    case False
    with Cons.prems c e have "scan_dates bs today m d rest acc = Inr ds"
      by (simp add: Let_def c_eq e_eq)
    with Cons.IH [OF Cons.prems(1)] False show ?thesis
      by simp
  qed
qed

text \<open>Every date the loop appends had its window end computed.\<close>

lemma scan_dates_window_ends:
  "scan_dates bs today m d cands acc = Inr ds \<Longrightarrow>
   \<forall>x\<in>set acc. date_add x d = Inr (x + d) \<Longrightarrow>
   \<forall>x\<in>set ds. date_add x d = Inr (x + d)"
proof (induction cands arbitrary: acc)
  case Nil
  then show ?case by simp
next
  case (Cons i rest)
  from Cons.prems(1) obtain c e where c: "date_add today i = Inr c"
    and e: "date_add c d = Inr e"
    by (auto split: sum.splits)
  from e have e_eq: "e = c + d" by (simp add: date_add_Inr)
  let ?acc' = "if booked_masks bs c e + m \<le> 2 then acc @ [c] else acc"
  have acc': "\<forall>x\<in>set ?acc'. date_add x d = Inr (x + d)"
    using Cons.prems(2) e e_eq by simp
  show ?case
  proof (cases "length ?acc' \<ge> 7")
    case True
    with Cons.prems(1) c e have "ds = ?acc'" by (simp add: Let_def)
    with acc' show ?thesis by simp
  next
    case False
    with Cons.prems(1) c e have "scan_dates bs today m d rest ?acc' = Inr ds"
      by (simp add: Let_def)
    from Cons.IH [OF this acc'] show ?thesis .
  qed
qed

text \<open>When both additions of every iteration succeed, the loop returns.\<close>

lemma scan_dates_returns:
  "\<forall>i\<in>set cands. date_add today i = Inr (today + i)
                     \<and> date_add (today + i) d = Inr (today + i + d) \<Longrightarrow>
   \<exists>ds. scan_dates bs today m d cands acc = Inr ds"
  by (induction cands arbitrary: acc) (simp_all add: Let_def)

lemma scan_dates_overflow_at_first:
  assumes "date_add today i = Inr (today + i)"
    and "today + i + d < date_min \<or> date_max < today + i + d"
  shows "scan_dates bs today m d (i # rest) acc = Inl OverflowError"
  using assms by (simp add: date_add_out_of_range)

lemma get_available_dates_take:
  assumes "get_available_dates bs today m d = Inr ds"
  shows "ds = take 7 (filter (\<lambda>c. booked_masks bs c (c + d) + m \<le> 2)
                       (map (\<lambda>i. today + i) [1..30]))"
  using assms scan_dates_take [of "[]" bs today m d "[1..30]" ds]
  unfolding get_available_dates_def by simp

lemma get_available_dates_returns:
  assumes "date_min \<le> today" and "today + 30 \<le> date_max"
    and "date_min \<le> today + 1 + d" and "today + 30 + d \<le> date_max"
  shows "get_available_dates bs today m d =
     Inr (take 7 (filter (\<lambda>c. booked_masks bs c (c + d) + m \<le> 2)
                    (map (\<lambda>i. today + i) [1..30])))"
proof -
  have "\<forall>i\<in>set [1..30]. date_add today i = Inr (today + i)
                     \<and> date_add (today + i) d = Inr (today + i + d)"
    using assms by (intro ballI scan_additions_in_range)
  then obtain ds where ds: "get_available_dates bs today m d = Inr ds"
    unfolding get_available_dates_def using scan_dates_returns by blast
  with get_available_dates_take [OF ds] show ?thesis by simp
qed

lemma get_available_dates_overflow:
  assumes "date_min \<le> today" and "today + 1 \<le> date_max"
    and "today + 1 + d < date_min \<or> date_max < today + 1 + d"
  shows "get_available_dates bs today m d = Inl OverflowError"
proof -
  have first: "date_add today 1 = Inr (today + 1)"
    using assms(1,2) by (simp add: date_add_in_range)
  have "[1..30] = 1 # [2..30]"
    by (simp add: upto_rec1)
  with scan_dates_overflow_at_first [OF first assms(3)] show ?thesis
    by (simp add: get_available_dates_def)
qed

lemma offered_date_fits:
  assumes "get_available_dates bs today m d = Inr ds" and "x \<in> set ds"
  shows "booked_masks bs x (x + d) + m \<le> 2"
proof -
  from assms(1) have "ds = take 7 (filter (\<lambda>c. booked_masks bs c (c + d) + m \<le> 2)
      (map (\<lambda>i. today + i) [1..30]))"
    by (rule get_available_dates_take)
  with assms(2) have "x \<in> set (filter (\<lambda>c. booked_masks bs c (c + d) + m \<le> 2)
      (map (\<lambda>i. today + i) [1..30]))"
    by (auto dest: in_set_takeD)
  then show ?thesis by simp
qed

lemma offered_date_window_end:
  assumes "get_available_dates bs today m d = Inr ds" and "x \<in> set ds"
  shows "date_add x d = Inr (x + d)"
  using assms scan_dates_window_ends [of bs today m d "[1..30]" "[]" ds]
  unfolding get_available_dates_def by simp

lemma sorted_wrt_take_filter:
  "sorted_wrt R xs \<Longrightarrow> sorted_wrt R (take n (filter P xs))"
  by (metis sorted_wrt_filter sorted_wrt_take)

subsection \<open>The three clauses of the query and the half-open overlap\<close>

lemma match_period_iff:
  assumes "start_date b < end_date b" and "c < e"
  shows "match_period c e b \<longleftrightarrow> status_in b \<and> half_open_overlap c e b"
  using assms unfolding match_period_def half_open_overlap_def by auto

lemma covers_match_period:
  assumes "covers b t" and "c \<le> t" and "t < e"
  shows "match_period c e b"
  using assms unfolding covers_def match_period_def by auto

lemma sum_list_filter_mono:
  fixes f :: "'a \<Rightarrow> int"
  assumes "\<forall>x\<in>set xs. 0 \<le> f x" and "\<forall>x\<in>set xs. P x \<longrightarrow> Q x"
  shows "sum_list (map f (filter P xs)) \<le> sum_list (map f (filter Q xs))"
  using assms by (induction xs) auto

lemma usage_at_le_booked_masks:
  assumes "\<forall>b\<in>set bs. 0 \<le> masks_count b" and "c \<le> t" and "t < e"
  shows "usage_at bs t \<le> booked_masks bs c e"
  unfolding usage_at_def booked_masks_sum
  using assms by (intro sum_list_filter_mono) (auto intro: covers_match_period)

lemma usage_at_append:
  "usage_at (bs @ [b]) t = usage_at bs t + (if covers b t then masks_count b else 0)"
  by (simp add: usage_at_def)

lemma capacity_invariant_append:
  assumes inv: "capacity_invariant bs" and nonneg: "\<forall>b\<in>set bs. 0 \<le> masks_count b"
    and fits: "booked_masks bs (start_date nb) (end_date nb) + masks_count nb \<le> 2"
  shows "capacity_invariant (bs @ [nb])"
  unfolding capacity_invariant_def
proof
  fix t
  show "usage_at (bs @ [nb]) t \<le> 2"
  proof (cases "covers nb t")
    case True
    then have "start_date nb \<le> t" and "t < end_date nb"
      by (simp_all add: covers_def)
    with nonneg have "usage_at bs t \<le> booked_masks bs (start_date nb) (end_date nb)"
      by (rule usage_at_le_booked_masks)
    with fits True show ?thesis by (simp add: usage_at_append)
  next
    case False
    with inv show ?thesis by (simp add: usage_at_append capacity_invariant_def)
  qed
qed

lemma capacity_invariant_A: "capacity_invariant [booking_A]"
  by (simp add: capacity_invariant_def usage_at_def booking_A_def)

lemma offer_next_to_A: "get_available_dates [booking_A] 8 1 2 = Inr [12, 13, 14, 15, 16, 17, 18]"
  by code_simp

lemma full_month_is_full:
  "\<forall>i\<in>{1..30}. \<not> booked_masks full_month (8 + i) (8 + i + 2) + 1 \<le> 2"
  by code_simp

lemma scan_with_bad_domain:
  "take 7 (filter (\<lambda>c. booked_masks [booking_A] c (c + 5) + 1 \<le> 2)
                    (map (\<lambda>i. 8 + i) [1..30])) = [12, 13, 14, 15, 16, 17, 18]"
  by code_simp

section \<open>Helper facts on the handlers and the routes\<close>

lemma PRICES_at_1 [simp]:
  "PRICES_at 1 1 = Inr 70" "PRICES_at 1 2 = Inr 130" "PRICES_at 1 3 = Inr 180"
  by (simp_all add: PRICES_at_def PRICES_def)

lemma PRICES_at_domain:
  "PRICES_at masks days = Inr p \<Longrightarrow> masks \<in> {1, 2} \<and> days \<in> {1, 2, 3}"
  by (auto simp: PRICES_at_def PRICES_def split: option.splits if_splits)

lemma handle_text_commits:
  assumes "user_sessions st (u_id user) = Some s"
    and "s_start_date s = Some start" and "s_days_count s = Some days"
    and "s_masks_count s = Some masks" and "date_add start days = Inr e"
    and "PRICES_at masks days = Inr p"
  shows "handle_text st user text new_id now =
    (Replied (BookingAccepted
       \<lparr>id' = new_id, user_id = u_id user, username = u_username user,
        first_name = u_first_name user, masks_count = masks, days_count = days,
        start_date = start, end_date = e, price = p, delivery_address = text,
        status = ''pending'', created_at = now\<rparr>),
     st\<lparr>bookings := bookings st @
          [\<lparr>id' = new_id, user_id = u_id user, username = u_username user,
            first_name = u_first_name user, masks_count = masks, days_count = days,
            start_date = start, end_date = e, price = p, delivery_address = text,
            status = ''pending'', created_at = now\<rparr>],
        user_sessions := (user_sessions st)(u_id user := None)\<rparr>)"
  using assms by (simp add: handle_text_def Let_def)

lemma handle_text_overflow:
  assumes "user_sessions st (u_id user) = Some s"
    and "s_start_date s = Some start" and "s_days_count s = Some days"
    and "s_masks_count s = Some masks" and "date_add start days = Inl err"
  shows "handle_text st user text new_id now = (Raised err, st)"
  using assms by (simp add: handle_text_def)

lemma update_one_absent:
  "booking_id \<notin> id' ` set bs \<Longrightarrow> update_one bs booking_id s = (0, bs)"
  by (induction bs) auto

lemma delete_one_absent:
  "booking_id \<notin> id' ` set bs \<Longrightarrow> delete_one bs booking_id = (0, bs)"
  by (induction bs) auto

lemma update_one_first:
  "booking_id \<notin> id' ` set pre \<Longrightarrow> id' b = booking_id \<Longrightarrow>
   update_one (pre @ b # post) booking_id s = (1, pre @ b\<lparr>status := s\<rparr> # post)"
  by (induction pre) auto

text \<open>
  A date chosen in a session that has no duration yet: \<^verbatim>\<open>handle_callback\<close> stores the
  start date and then raises \<^verbatim>\<open>KeyError\<close> on \<^verbatim>\<open>["days_count"]\<close>; no reply is sent.
\<close>

lemma date_before_days_raises:
  "handle_callback state_after_masks 0 7 (Date 12) =
     (Raised KeyError,
      state_after_masks\<lparr>user_sessions := [7 \<mapsto> \<lparr>s_masks_count = Some 1, s_days_count = None,
                                                  s_start_date = Some 12\<rparr>]\<rparr>)"
  by (simp add: state_after_masks_def set_start_date_def)

section \<open>The claims\<close>

text \<open>
  C1, as the code has it. \<^verbatim>\<open>handle_text\<close> makes no capacity check and has no rejection
  for capacity. When the session holds a start date, a duration and a quantity with a
  tariff, and the end date (start date plus duration) is a day a \<^verbatim>\<open>datetime\<close> can hold, it
  appends the reservation with status pending and deletes the session; when the end date
  is out of that range it raises \<^verbatim>\<open>OverflowError\<close> and changes nothing. The capacity
  invariant holds after the commit provided it held before, no stored quantity is negative
  and the test of \<^verbatim>\<open>get_available_dates\<close> (booked masks over the requested window plus the
  requested quantity at most 2) passes on the reservation set at the time of the commit.
\<close>

theorem C1_commit_without_check:
  assumes "user_sessions st (u_id user) = Some s"
    and "s_start_date s = Some start" and "s_days_count s = Some days"
    and "s_masks_count s = Some masks" and "PRICES_at masks days = Inr p"
  shows "(date_min \<le> start + days \<and> start + days \<le> date_max \<longrightarrow>
          (\<exists>b. handle_text st user text new_id now =
            (Replied (BookingAccepted b),
             st\<lparr>bookings := bookings st @ [b],
                user_sessions := (user_sessions st)(u_id user := None)\<rparr>)
          \<and> status b = ''pending'' \<and> masks_count b = masks
          \<and> start_date b = start \<and> end_date b = start + days
          \<and> (capacity_invariant (bookings st) \<and> (\<forall>x\<in>set (bookings st). 0 \<le> masks_count x)
               \<and> booked_masks (bookings st) start (start + days) + masks \<le> 2
             \<longrightarrow> capacity_invariant (bookings st @ [b]))))
       \<and> (start + days < date_min \<or> date_max < start + days \<longrightarrow>
            handle_text st user text new_id now = (Raised OverflowError, st))"
proof (intro conjI impI)
  assume range: "date_min \<le> start + days \<and> start + days \<le> date_max"
  from PRICES_at_domain [OF assms(5)] have "days \<in> {1, 2, 3}" by simp
  then have "\<bar>days\<bar> \<le> 999999999" by auto
  with range have add: "date_add start days = Inr (start + days)"
    by (simp add: date_add_in_range)
  let ?b = "\<lparr>id' = new_id, user_id = u_id user, username = u_username user,
        first_name = u_first_name user, masks_count = masks, days_count = days,
        start_date = start, end_date = start + days, price = p, delivery_address = text,
        status = ''pending'', created_at = now\<rparr>"
  have "handle_text st user text new_id now =
            (Replied (BookingAccepted ?b),
             st\<lparr>bookings := bookings st @ [?b],
                user_sessions := (user_sessions st)(u_id user := None)\<rparr>)"
    using assms(1-4) add assms(5) by (rule handle_text_commits)
  moreover have "capacity_invariant (bookings st @ [?b])"
    if "capacity_invariant (bookings st)" and "\<forall>x\<in>set (bookings st). 0 \<le> masks_count x"
      and "booked_masks (bookings st) start (start + days) + masks \<le> 2"
    using that by (intro capacity_invariant_append) simp_all
  ultimately show "\<exists>b. handle_text st user text new_id now =
            (Replied (BookingAccepted b),
             st\<lparr>bookings := bookings st @ [b],
                user_sessions := (user_sessions st)(u_id user := None)\<rparr>)
          \<and> status b = ''pending'' \<and> masks_count b = masks
          \<and> start_date b = start \<and> end_date b = start + days
          \<and> (capacity_invariant (bookings st) \<and> (\<forall>x\<in>set (bookings st). 0 \<le> masks_count x)
               \<and> booked_masks (bookings st) start (start + days) + masks \<le> 2
             \<longrightarrow> capacity_invariant (bookings st @ [b]))"
    by (intro exI [of _ ?b]) simp
next
  assume "start + days < date_min \<or> date_max < start + days"
  then have "date_add start days = Inl OverflowError"
    by (rule date_add_out_of_range)
  with assms(1-4) show "handle_text st user text new_id now = (Raised OverflowError, st)"
    by (rule handle_text_overflow)
qed

theorem C1_commit_without_check_witness:
  "user_sessions (state_at_address 12) (u_id requester)
     = Some \<lparr>s_masks_count = Some 1, s_days_count = Some 2, s_start_date = Some 12\<rparr>
   \<and> PRICES_at 1 2 = Inr 130
   \<and> date_min \<le> 12 + 2 \<and> 12 + 2 \<le> date_max
   \<and> capacity_invariant (bookings (state_at_address 12))
   \<and> list_all (\<lambda>x. 0 \<le> masks_count x) (bookings (state_at_address 12))
   \<and> booked_masks (bookings (state_at_address 12)) 12 (12 + 2) + 1 \<le> 2
   \<and> capacity_invariant (bookings (snd (handle_text (state_at_address 12) requester ''Addr 1'' ''B'' 0)))
   \<and> user_sessions (state_at_address 3652059) (u_id requester)
     = Some \<lparr>s_masks_count = Some 1, s_days_count = Some 2, s_start_date = Some 3652059\<rparr>
   \<and> date_max < 3652059 + 2
   \<and> handle_text (state_at_address 3652059) requester ''Addr 1'' ''B'' 0
       = (Raised OverflowError, state_at_address 3652059)"
proof -
  have h1: "user_sessions (state_at_address 12) (u_id requester)
     = Some \<lparr>s_masks_count = Some 1, s_days_count = Some 2, s_start_date = Some 12\<rparr>"
    by (simp add: state_at_address_def requester_def)
  have h2: "PRICES_at 1 2 = Inr 130"
    by (simp add: PRICES_at_def PRICES_def)
  have r: "date_min \<le> 12 + 2 \<and> 12 + 2 \<le> date_max"
    by (simp add: date_min_def date_max_def)
  have h3: "capacity_invariant (bookings (state_at_address 12))"
    using capacity_invariant_A by (simp add: state_at_address_def)
  have h4: "\<forall>x\<in>set (bookings (state_at_address 12)). 0 \<le> masks_count x"
    by (simp add: state_at_address_def booking_A_def)
  have h5: "booked_masks (bookings (state_at_address 12)) 12 (12 + 2) + 1 \<le> 2"
    by (simp add: state_at_address_def booking_A_def booked_masks_def match_period_def)
  from C1_commit_without_check [OF h1 _ _ _ h2, of 12 "''Addr 1''" "''B''" 0] r h3 h4 h5
  have a: "capacity_invariant (bookings (snd (handle_text (state_at_address 12) requester ''Addr 1'' ''B'' 0)))"
    by auto
  have k1: "user_sessions (state_at_address 3652059) (u_id requester)
     = Some \<lparr>s_masks_count = Some 1, s_days_count = Some 2, s_start_date = Some 3652059\<rparr>"
    by (simp add: state_at_address_def requester_def)
  have late: "date_max < 3652059 + 2"
    by (simp add: date_max_def)
  from C1_commit_without_check [OF k1 _ _ _ h2, of 3652059 "''Addr 1''" "''B''" 0] late
  have b: "handle_text (state_at_address 3652059) requester ''Addr 1'' ''B'' 0
       = (Raised OverflowError, state_at_address 3652059)"
    by simp
  from h1 h2 r h3 h4 h5 a k1 late b show ?thesis by (simp add: list_all_iff)
qed

text \<open>
  C1 as stated fails: with reservation A holding both masks on days 10 to 12, a session
  for one mask from day 10 is committed, and the usage on day 10 becomes 3.
\<close>

theorem C1_counterexample:
  "capacity_invariant (bookings (state_at_address 10))
   \<and> fst (handle_text (state_at_address 10) requester ''Addr 1'' ''B'' 0)
       = Replied (BookingAccepted (booking_of_requester 10))
   \<and> bookings (snd (handle_text (state_at_address 10) requester ''Addr 1'' ''B'' 0))
       = [booking_A, booking_of_requester 10]
   \<and> usage_at (bookings (snd (handle_text (state_at_address 10) requester ''Addr 1'' ''B'' 0))) 10 = 3"
proof -
  have run: "handle_text (state_at_address 10) requester ''Addr 1'' ''B'' 0 =
      (Replied (BookingAccepted (booking_of_requester 10)),
       (state_at_address 10)\<lparr>bookings := bookings (state_at_address 10) @ [booking_of_requester 10],
          user_sessions := (user_sessions (state_at_address 10))(u_id requester := None)\<rparr>)"
    by (simp add: handle_text_def state_at_address_def requester_def booking_of_requester_def
        PRICES_at_def PRICES_def Let_def date_add_def date_min_def date_max_def)
  have "usage_at [booking_A, booking_of_requester 10] 10 = 3"
    by (simp add: usage_at_def covers_def status_in_def booking_A_def booking_of_requester_def)
  with run capacity_invariant_A show ?thesis
    by (simp add: state_at_address_def)
qed

text \<open>
  C2: for reservations with non-negative quantities, every date \<open>d\<close> that
  \<^verbatim>\<open>get_available_dates\<close> returns is such that, after adding a pending reservation of the
  requested quantity over \<open>[d, d + days_needed)\<close>, the usage at every instant \<open>t\<close> of that
  window is at most 2.
\<close>

theorem C2_offered_dates_keep_capacity:
  assumes "\<forall>b\<in>set bs. 0 \<le> masks_count b"
    and "get_available_dates bs today masks_needed days_needed = Inr ds"
    and "d \<in> set ds"
    and "start_date nb = d" and "end_date nb = d + days_needed"
    and "masks_count nb = masks_needed" and "status nb = ''pending''"
    and "d \<le> t" and "t < d + days_needed"
  shows "usage_at (bs @ [nb]) t \<le> 2"
proof -
  have fits: "booked_masks bs d (d + days_needed) + masks_needed \<le> 2"
    using assms(2,3) by (rule offered_date_fits)
  have "usage_at bs t \<le> booked_masks bs d (d + days_needed)"
    using assms(1,8,9) by (rule usage_at_le_booked_masks)
  moreover have "covers nb t"
    using assms(4-9) by (simp add: covers_def status_in_def)
  ultimately show ?thesis
    using fits assms(6) by (simp add: usage_at_append)
qed

theorem C2_offered_dates_keep_capacity_witness:
  "0 \<le> masks_count booking_A
   \<and> get_available_dates [booking_A] 8 1 2 = Inr [12, 13, 14, 15, 16, 17, 18]
   \<and> 12 \<in> set [12, 13, 14, 15, 16, 17, 18 :: int]
   \<and> start_date (booking_of_requester 12) = 12 \<and> end_date (booking_of_requester 12) = 12 + 2
   \<and> masks_count (booking_of_requester 12) = 1 \<and> status (booking_of_requester 12) = ''pending''
   \<and> (12 :: int) \<le> 13 \<and> (13 :: int) < 12 + 2
   \<and> usage_at ([booking_A] @ [booking_of_requester 12]) 13 \<le> 2"
proof -
  have h1: "\<forall>b\<in>set [booking_A]. 0 \<le> masks_count b"
    by (simp add: booking_A_def)
  have h2: "get_available_dates [booking_A] 8 1 2 = Inr [12, 13, 14, 15, 16, 17, 18]"
    by code_simp
  have h3: "12 \<in> set [12, 13, 14, 15, 16, 17, 18 :: int]"
    by simp
  have h4: "start_date (booking_of_requester 12) = 12"
    and h5: "end_date (booking_of_requester 12) = 12 + 2"
    and h6: "masks_count (booking_of_requester 12) = 1"
    and h7: "status (booking_of_requester 12) = ''pending''"
    by (simp_all add: booking_of_requester_def)
  have h8: "(12 :: int) \<le> 13" and h9: "(13 :: int) < 12 + 2"
    by simp_all
  from h1 h2 h3 h4 h5 h6 h7 C2_offered_dates_keep_capacity [OF h1 h2 h3 h4 h5 h6 h7 h8 h9]
  show ?thesis by simp
qed

text \<open>
  C3, as the code has it. Without a session, a duration or date selection is answered
  with the session-expired text and nothing changes; a free text without a session, or
  with a session that has no start date, is ignored without any reply and nothing changes.
\<close>

theorem C3_events_without_session:
  "(user_sessions st uid = None \<longrightarrow>
      handle_callback st today uid (Days n) = (Replied SessionExpired, st)
      \<and> handle_callback st today uid (Date d) = (Replied SessionExpired, st))
   \<and> ((user_sessions st (u_id user) = None
        \<or> (\<exists>s. user_sessions st (u_id user) = Some s \<and> s_start_date s = None)) \<longrightarrow>
      handle_text st user text new_id now = (Silent, st))"
  by (auto simp: handle_text_def)

theorem C3_events_without_session_witness:
  "user_sessions no_state 7 = None
   \<and> handle_callback no_state 0 7 (Days 2) = (Replied SessionExpired, no_state)
   \<and> handle_callback no_state 0 7 (Date 12) = (Replied SessionExpired, no_state)
   \<and> user_sessions state_after_masks (u_id requester)
       = Some \<lparr>s_masks_count = Some 1, s_days_count = None, s_start_date = None\<rparr>
   \<and> handle_text state_after_masks requester ''Addr 1'' ''B'' 0 = (Silent, state_after_masks)"
proof -
  have h1: "user_sessions no_state 7 = None"
    by (simp add: no_state_def)
  have h2: "user_sessions state_after_masks (u_id requester)
       = Some \<lparr>s_masks_count = Some 1, s_days_count = None, s_start_date = None\<rparr>"
    by (simp add: state_after_masks_def requester_def)
  from h1 C3_events_without_session [of no_state 7 0 2 12]
  have a: "handle_callback no_state 0 7 (Days 2) = (Replied SessionExpired, no_state)
      \<and> handle_callback no_state 0 7 (Date 12) = (Replied SessionExpired, no_state)"
    by blast
  from h2 C3_events_without_session [of state_after_masks "u_id requester" 0 2 12 requester "''Addr 1''" "''B''" 0]
  have b: "handle_text state_after_masks requester ''Addr 1'' ''B'' 0 = (Silent, state_after_masks)"
    by simp
  from h1 h2 a b show ?thesis by blast
qed

text \<open>
  C3 as stated fails: a free text from a requester without a session gets no reply at
  all, so no restart instruction is emitted.
\<close>

theorem C3_counterexample:
  "user_sessions no_state (u_id requester) = None
   \<and> handle_text no_state requester ''Addr 1'' ''B'' 0 = (Silent, no_state)
   \<and> fst (handle_text no_state requester ''Addr 1'' ''B'' 0) \<noteq> Replied SessionExpired"
  by (simp add: handle_text_def no_state_def)

text \<open>
  C4, as the code has it: for reservations with \<open>start_date < end_date\<close> (every stored
  reservation lasts at least a day) and a window of at least one day, the
  quantity counted against the window \<open>[d, d + days_needed)\<close> is the sum over exactly the
  pending or confirmed reservations that overlap it half-openly; a reservation ending on
  \<open>d\<close> is not matched, and neither is one starting on \<open>d + days_needed\<close>.
\<close>

theorem C4_adjacency:
  assumes "\<forall>b\<in>set bs. start_date b < end_date b" and "0 < days_needed"
  shows "booked_masks bs d (d + days_needed) =
           sum_list (map masks_count
             (filter (\<lambda>b. status_in b \<and> half_open_overlap d (d + days_needed) b) bs))
         \<and> (\<forall>b\<in>set bs. end_date b = d \<longrightarrow> \<not> match_period d (d + days_needed) b)
         \<and> (\<forall>b\<in>set bs. start_date b = d + days_needed \<longrightarrow> \<not> match_period d (d + days_needed) b)"
proof -
  have iff: "match_period d (d + days_needed) b \<longleftrightarrow>
      status_in b \<and> half_open_overlap d (d + days_needed) b" if "b \<in> set bs" for b
    using that assms by (intro match_period_iff) auto
  then have "filter (match_period d (d + days_needed)) bs =
      filter (\<lambda>b. status_in b \<and> half_open_overlap d (d + days_needed) b) bs"
    by (intro filter_cong) auto
  then have "booked_masks bs d (d + days_needed) =
           sum_list (map masks_count
             (filter (\<lambda>b. status_in b \<and> half_open_overlap d (d + days_needed) b) bs))"
    by (simp add: booked_masks_sum)
  moreover have "\<forall>b\<in>set bs. end_date b = d \<longrightarrow> \<not> match_period d (d + days_needed) b"
    using iff by (auto simp: half_open_overlap_def)
  moreover have "\<forall>b\<in>set bs. start_date b = d + days_needed \<longrightarrow> \<not> match_period d (d + days_needed) b"
    using iff by (auto simp: half_open_overlap_def)
  ultimately show ?thesis by blast
qed

theorem C4_adjacency_witness:
  "start_date booking_A < end_date booking_A \<and> (0 :: int) < 2
   \<and> end_date booking_A = 12 \<and> \<not> match_period 12 (12 + 2) booking_A
   \<and> start_date booking_A = 8 + 2 \<and> \<not> match_period 8 (8 + 2) booking_A
   \<and> booked_masks [booking_A] 12 (12 + 2) = 0"
proof -
  have h1: "\<forall>b\<in>set [booking_A]. start_date b < end_date b"
    by (simp add: booking_A_def)
  have h2: "(0 :: int) < 2" by simp
  have e: "end_date booking_A = 12" and s: "start_date booking_A = 8 + 2"
    by (simp_all add: booking_A_def)
  from C4_adjacency [OF h1 h2, of 12] e
  have a: "\<not> match_period 12 (12 + 2) booking_A" by simp
  from C4_adjacency [OF h1 h2, of 8] s
  have b: "\<not> match_period 8 (8 + 2) booking_A" by simp
  from C4_adjacency [OF h1 h2, of 12] e
  have c: "booked_masks [booking_A] 12 (12 + 2) = 0"
    by (simp add: half_open_overlap_def)
  from h1 h2 e s a b c show ?thesis by simp
qed

text \<open>
  C4 as stated fails on a window of no days, which \<^verbatim>\<open>get_available_dates\<close> receives from a
  \<^verbatim>\<open>days_0\<close> callback: the third clause of the query then matches reservation A, which
  ends on day 12, against the window starting on day 12, and likewise against the window
  ending on day 10, where A starts; neither overlaps half-openly. Days 10 to 12 are refused.
\<close>

theorem C4_counterexample:
  "end_date booking_A = 12 \<and> match_period 12 (12 + 0) booking_A
   \<and> \<not> half_open_overlap 12 (12 + 0) booking_A
   \<and> booked_masks [booking_A] 12 (12 + 0) = 2
   \<and> start_date booking_A = 10 + 0 \<and> match_period 10 (10 + 0) booking_A
   \<and> \<not> half_open_overlap 10 (10 + 0) booking_A
   \<and> get_available_dates [booking_A] 8 1 0 = Inr [9, 13, 14, 15, 16, 17, 18]"
  by code_simp

text \<open>
  C5: the sequence start_booking, masks_1, days_2, a date among the offered ones, then a
  free text, commits exactly one reservation: it is appended to the collection, its price
  is \<^verbatim>\<open>PRICES[1][2]\<close> = 130, its status is pending, its end date is its start date plus
  its two days, its address is the text; the requester's session is deleted and no other
  session changes.
\<close>

theorem C5_full_intake_commits:
  assumes restart: "handle_callback st today (u_id user) StartBooking = (o1, st1)"
    and quantity: "handle_callback st1 today (u_id user) (Masks 1) = (o2, st2)"
    and duration: "handle_callback st2 today (u_id user) (Days 2) = (Replied (ChooseDate offered p), st3)"
    and offered: "d \<in> set offered"
    and chosen: "handle_callback st3 today (u_id user) (Date d) = (o4, st4)"
  shows "\<exists>b st5. handle_text st4 user text new_id now = (Replied (BookingAccepted b), st5)
           \<and> bookings st5 = bookings st @ [b]
           \<and> PRICES_at 1 2 = Inr (price b) \<and> price b = 130
           \<and> status b = ''pending''
           \<and> start_date b = d \<and> days_count b = 2 \<and> end_date b = start_date b + days_count b
           \<and> masks_count b = 1 \<and> delivery_address b = text \<and> user_id b = u_id user
           \<and> user_sessions st5 = (user_sessions st)(u_id user := None)"
proof -
  let ?uid = "u_id user"
  let ?s1 = "\<lparr>s_masks_count = Some 1, s_days_count = None, s_start_date = None\<rparr>"
  let ?s2 = "\<lparr>s_masks_count = Some 1, s_days_count = Some 2, s_start_date = None\<rparr>"
  let ?s3 = "\<lparr>s_masks_count = Some 1, s_days_count = Some 2, s_start_date = Some d\<rparr>"
  from restart have st1: "st1 = st" by simp
  from quantity have st2: "st2 = st\<lparr>user_sessions := (user_sessions st)(?uid \<mapsto> ?s1)\<rparr>"
    unfolding st1 by (simp add: Let_def)
  have "user_sessions st2 ?uid = Some ?s1" by (simp add: st2)
  with duration have st3: "st3 = st2\<lparr>user_sessions := (user_sessions st2)(?uid \<mapsto> ?s2)\<rparr>"
    by (simp add: Let_def set_days_count_def split: sum.splits if_splits)
  have "user_sessions st3 ?uid = Some ?s2" by (simp add: st3)
  with chosen have st4: "st4 = st3\<lparr>user_sessions := (user_sessions st3)(?uid \<mapsto> ?s3)\<rparr>"
    by (simp add: Let_def set_start_date_def split: sum.splits)
  from duration \<open>user_sessions st2 ?uid = Some ?s1\<close>
  have "get_available_dates (bookings st2) today 1 2 = Inr offered"
    by (simp add: Let_def split: sum.splits if_splits)
  from this offered have add: "date_add d 2 = Inr (d + 2)"
    by (rule offered_date_window_end)
  have sess: "user_sessions st4 ?uid = Some ?s3" by (simp add: st4)
  let ?b = "\<lparr>id' = new_id, user_id = ?uid, username = u_username user,
        first_name = u_first_name user, masks_count = 1, days_count = 2,
        start_date = d, end_date = d + 2, price = 130, delivery_address = text,
        status = ''pending'', created_at = now\<rparr>"
  let ?st5 = "st4\<lparr>bookings := bookings st4 @ [?b],
                 user_sessions := (user_sessions st4)(?uid := None)\<rparr>"
  have "handle_text st4 user text new_id now = (Replied (BookingAccepted ?b), ?st5)"
    using sess by (rule handle_text_commits) (simp_all add: add)
  moreover have "bookings ?st5 = bookings st @ [?b]"
    by (simp add: st4 st3 st2)
  moreover have "user_sessions ?st5 = (user_sessions st)(?uid := None)"
    by (simp add: st4 st3 st2)
  ultimately show ?thesis
    by (intro exI [of _ ?b] exI [of _ ?st5]) simp
qed

theorem C5_full_intake_commits_witness:
  "handle_callback state_idle 8 (u_id requester) StartBooking = (Replied ChooseMasks, state_idle)
   \<and> handle_callback state_idle 8 (u_id requester) (Masks 1)
       = (Replied (ChooseDays 70 130 180), state_after_masks)
   \<and> handle_callback state_after_masks 8 (u_id requester) (Days 2)
       = (Replied (ChooseDate [12, 13, 14, 15, 16, 17, 18] 130), state_after_days)
   \<and> 12 \<in> set [12, 13, 14, 15, 16, 17, 18 :: int]
   \<and> handle_callback state_after_days 8 (u_id requester) (Date 12)
       = (Replied (AskAddress 12 14), state_at_address 12)
   \<and> (\<exists>b st5. handle_text (state_at_address 12) requester ''Addr 1'' ''B'' 0
                  = (Replied (BookingAccepted b), st5)
           \<and> bookings st5 = bookings state_idle @ [b]
           \<and> PRICES_at 1 2 = Inr (price b) \<and> price b = 130
           \<and> status b = ''pending''
           \<and> start_date b = 12 \<and> days_count b = 2 \<and> end_date b = start_date b + days_count b
           \<and> masks_count b = 1 \<and> delivery_address b = ''Addr 1'' \<and> user_id b = u_id requester
           \<and> user_sessions st5 = (user_sessions state_idle)(u_id requester := None))"
proof -
  have h1: "handle_callback state_idle 8 (u_id requester) StartBooking
      = (Replied ChooseMasks, state_idle)"
    by simp
  have h2: "handle_callback state_idle 8 (u_id requester) (Masks 1)
       = (Replied (ChooseDays 70 130 180), state_after_masks)"
    by (simp add: state_idle_def state_after_masks_def requester_def)
  have h3: "handle_callback state_after_masks 8 (u_id requester) (Days 2)
       = (Replied (ChooseDate [12, 13, 14, 15, 16, 17, 18] 130), state_after_days)"
    by (simp add: state_after_masks_def state_after_days_def requester_def set_days_count_def
        offer_next_to_A)
  have h4: "12 \<in> set [12, 13, 14, 15, 16, 17, 18 :: int]"
    by simp
  have h5: "handle_callback state_after_days 8 (u_id requester) (Date 12)
       = (Replied (AskAddress 12 14), state_at_address 12)"
    by (simp add: state_after_days_def state_at_address_def requester_def set_start_date_def
        date_add_def date_min_def date_max_def)
  from h1 h2 h3 h4 h5 C5_full_intake_commits [OF h1 h2 h3 h4 h5, of "''Addr 1''" "''B''" 0]
  show ?thesis by blast
qed

text \<open>
  C6, as the code has it. \<^verbatim>\<open>get_available_dates\<close> has no domain check and no
  \<^verbatim>\<open>InvalidRequest\<close>. For a quantity outside \<open>{1, 2}\<close> or a duration outside \<open>{1, 2, 3}\<close>,
  with the clock and its thirty candidates in the range of \<^verbatim>\<open>datetime\<close>: when the window
  ends of all candidates are in that range too, it scans the thirty candidates as for any
  other input and returns the first seven that pass the test; when the window end of the
  first candidate is out of that range, it raises \<^verbatim>\<open>OverflowError\<close> at that candidate.
\<close>

theorem C6_no_domain_check:
  assumes "masks_needed \<notin> {1, 2} \<or> days_needed \<notin> {1, 2, 3}"
    and "date_min \<le> today" and "today + 30 \<le> date_max"
  shows "(date_min \<le> today + 1 + days_needed \<and> today + 30 + days_needed \<le> date_max \<longrightarrow>
           get_available_dates bs today masks_needed days_needed =
             Inr (take 7 (filter (\<lambda>c. booked_masks bs c (c + days_needed) + masks_needed \<le> 2)
                            (map (\<lambda>i. today + i) [1..30]))))
       \<and> (today + 1 + days_needed < date_min \<or> date_max < today + 1 + days_needed \<longrightarrow>
           get_available_dates bs today masks_needed days_needed = Inl OverflowError)"
proof (intro conjI impI)
  assume "date_min \<le> today + 1 + days_needed \<and> today + 30 + days_needed \<le> date_max"
  with assms(2,3) show "get_available_dates bs today masks_needed days_needed =
             Inr (take 7 (filter (\<lambda>c. booked_masks bs c (c + days_needed) + masks_needed \<le> 2)
                            (map (\<lambda>i. today + i) [1..30])))"
    by (intro get_available_dates_returns) simp_all
next
  assume out: "today + 1 + days_needed < date_min \<or> date_max < today + 1 + days_needed"
  from assms(3) have "today + 1 \<le> date_max" by simp
  with assms(2) show "get_available_dates bs today masks_needed days_needed = Inl OverflowError"
    using out by (rule get_available_dates_overflow)
qed

theorem C6_no_domain_check_witness:
  "(5 :: int) \<notin> {1, 2, 3} \<and> (4000000 :: int) \<notin> {1, 2, 3}
   \<and> date_min \<le> 8 \<and> 8 + 30 \<le> date_max
   \<and> date_min \<le> 8 + 1 + 5 \<and> 8 + 30 + 5 \<le> date_max
   \<and> get_available_dates [booking_A] 8 1 5 = Inr [12, 13, 14, 15, 16, 17, 18]
   \<and> date_max < 8 + 1 + 4000000
   \<and> get_available_dates [booking_A] 8 1 4000000 = Inl OverflowError"
proof -
  have h: "(1 :: int) \<notin> {1, 2} \<or> (5 :: int) \<notin> {1, 2, 3}"
    and k: "(1 :: int) \<notin> {1, 2} \<or> (4000000 :: int) \<notin> {1, 2, 3}"
    by simp_all
  have c1: "date_min \<le> 8" and c2: "8 + 30 \<le> date_max"
    by (simp_all add: date_min_def date_max_def)
  have r: "date_min \<le> 8 + 1 + 5 \<and> 8 + 30 + 5 \<le> date_max"
    by (simp add: date_min_def date_max_def)
  have late: "date_max < 8 + 1 + 4000000"
    by (simp add: date_max_def)
  from C6_no_domain_check [OF h c1 c2, of "[booking_A]"] r scan_with_bad_domain
  have a: "get_available_dates [booking_A] 8 1 5 = Inr [12, 13, 14, 15, 16, 17, 18]"
    by simp
  from C6_no_domain_check [OF k c1 c2, of "[booking_A]"] late
  have b: "get_available_dates [booking_A] 8 1 4000000 = Inl OverflowError"
    by simp
  from c1 c2 r late a b show ?thesis by simp
qed

text \<open>
  C6 as stated fails: a duration of 5 days yields seven dates, found by scanning past the
  days reservation A blocks, and a quantity of 3 yields the empty list; neither is an error.
\<close>

theorem C6_counterexample:
  "get_available_dates [booking_A] 8 1 5 = Inr [12, 13, 14, 15, 16, 17, 18]
   \<and> get_available_dates [booking_A] 8 3 2 = Inr []"
  by code_simp

text \<open>
  C7: for a quantity in \<open>{1, 2}\<close> and a duration in \<open>{1, 2, 3}\<close>, \<^verbatim>\<open>get_available_dates\<close>
  returns a list whenever the clock is in the range of \<^verbatim>\<open>datetime\<close> and the last window end
  (thirty days and the duration after \<^verbatim>\<open>today\<close>) is not after 9999-12-31; and every list it
  returns is strictly ascending, free of duplicates and of length at most 7, its dates lie
  strictly after \<^verbatim>\<open>today\<close> and at most 30 days after it, and it is empty when no
  candidate of the horizon passes the capacity test: the empty list is a result, not an error.
\<close>

theorem C7_result_shape:
  assumes "masks_needed \<in> {1, 2}" and "days_needed \<in> {1, 2, 3}"
  shows "(date_min \<le> today \<and> today + 30 + days_needed \<le> date_max \<longrightarrow>
           (\<exists>ds. get_available_dates bs today masks_needed days_needed = Inr ds))
       \<and> (\<forall>ds. get_available_dates bs today masks_needed days_needed = Inr ds \<longrightarrow>
             sorted_wrt (<) ds \<and> distinct ds \<and> length ds \<le> 7
           \<and> (\<forall>x\<in>set ds. today < x \<and> x \<le> today + 30)
           \<and> ((\<forall>i\<in>{1..30}. \<not> booked_masks bs (today + i) (today + i + days_needed)
                                   + masks_needed \<le> 2) \<longrightarrow> ds = []))"
proof (intro conjI impI allI)
  assume clock: "date_min \<le> today \<and> today + 30 + days_needed \<le> date_max"
  from assms(2) have "0 < days_needed" by auto
  with clock have "get_available_dates bs today masks_needed days_needed =
      Inr (take 7 (filter (\<lambda>c. booked_masks bs c (c + days_needed) + masks_needed \<le> 2)
                     (map (\<lambda>i. today + i) [1..30])))"
    by (intro get_available_dates_returns) simp_all
  then show "\<exists>ds. get_available_dates bs today masks_needed days_needed = Inr ds"
    by blast
next
  fix ds
  assume "get_available_dates bs today masks_needed days_needed = Inr ds"
  let ?ok = "\<lambda>c. booked_masks bs c (c + days_needed) + masks_needed \<le> 2"
  let ?cands = "map (\<lambda>i. today + i) [1..30]"
  from \<open>get_available_dates bs today masks_needed days_needed = Inr ds\<close>
  have ds: "ds = take 7 (filter ?ok ?cands)"
    by (rule get_available_dates_take)
  have asc: "sorted_wrt (<) ?cands"
    by (simp add: sorted_wrt_map)
  then show s: "sorted_wrt (<) ds"
    unfolding ds by (rule sorted_wrt_take_filter)
  then show "distinct ds"
    by (simp add: strict_sorted_iff)
  show "length ds \<le> 7"
    by (simp add: ds)
  show "\<forall>x\<in>set ds. today < x \<and> x \<le> today + 30"
    unfolding ds by (auto dest!: in_set_takeD)
  assume none: "\<forall>i\<in>{1..30}. \<not> booked_masks bs (today + i) (today + i + days_needed)
                                   + masks_needed \<le> 2"
  have "\<not> ?ok c" if "c \<in> set ?cands" for c
  proof -
    from that obtain i where "i \<in> {1..30}" and "c = today + i"
      unfolding set_map set_upto by blast
    with none show ?thesis by simp
  qed
  then have "filter ?ok ?cands = []"
    unfolding filter_empty_conv by blast
  then show "ds = []" by (simp add: ds)
qed

theorem C7_result_shape_witness:
  "(1 :: int) \<in> {1, 2} \<and> (2 :: int) \<in> {1, 2, 3}
   \<and> date_min \<le> 8 \<and> 8 + 30 + 2 \<le> date_max
   \<and> list_all (\<lambda>i. \<not> booked_masks full_month (8 + i) (8 + i + 2) + 1 \<le> 2) [1..30]
   \<and> get_available_dates full_month 8 1 2 = Inr []
   \<and> get_available_dates [booking_A] 8 1 2 = Inr [12, 13, 14, 15, 16, 17, 18]
   \<and> sorted_wrt (<) [12, 13, 14, 15, 16, 17, 18 :: int]
   \<and> list_all (\<lambda>x. 8 < x \<and> x \<le> 8 + 30) [12, 13, 14, 15, 16, 17, 18 :: int]"
proof -
  have h1: "(1 :: int) \<in> {1, 2}" and h2: "(2 :: int) \<in> {1, 2, 3}"
    by simp_all
  have clock: "date_min \<le> 8 \<and> 8 + 30 + 2 \<le> date_max"
    by (simp add: date_min_def date_max_def)
  note h3 = full_month_is_full
  from C7_result_shape [OF h1 h2, of 8 full_month] clock
  obtain ds where ds: "get_available_dates full_month 8 1 2 = Inr ds"
    by blast
  from C7_result_shape [OF h1 h2, of 8 full_month] ds h3
  have "ds = []" by blast
  with ds have a: "get_available_dates full_month 8 1 2 = Inr []" by simp
  from C7_result_shape [OF h1 h2, of 8 "[booking_A]"] offer_next_to_A
  have b: "sorted_wrt (<) [12, 13, 14, 15, 16, 17, 18 :: int]
      \<and> (\<forall>x\<in>set [12, 13, 14, 15, 16, 17, 18 :: int]. 8 < x \<and> x \<le> 8 + 30)"
    by blast
  from h1 h2 clock h3 a b offer_next_to_A show ?thesis
    unfolding list_all_iff set_upto by blast
qed

text \<open>
  C8: for an id that no stored reservation has, \<^verbatim>\<open>update_booking_status\<close> raises
  \<^verbatim>\<open>HTTPException(404)\<close> and leaves the collection as it was, and so does
  \<^verbatim>\<open>delete_booking\<close>.
\<close>

theorem C8_unknown_id_not_found:
  assumes "booking_id \<notin> id' ` set bs"
  shows "update_booking_status bs booking_id new_status
           = (Inl (HTTPException 404 ''Booking not found''), bs)
         \<and> delete_booking bs booking_id = (Inl (HTTPException 404 ''Booking not found''), bs)"
  using assms
  by (simp add: update_booking_status_def delete_booking_def update_one_absent delete_one_absent)

theorem C8_unknown_id_not_found_witness:
  "''Z'' \<notin> id' ` set [booking_A]
   \<and> update_booking_status [booking_A] ''Z'' ''confirmed''
       = (Inl (HTTPException 404 ''Booking not found''), [booking_A])
   \<and> delete_booking [booking_A] ''Z'' = (Inl (HTTPException 404 ''Booking not found''), [booking_A])"
proof -
  have h: "''Z'' \<notin> id' ` set [booking_A]"
    by (simp add: booking_A_def)
  from h C8_unknown_id_not_found [OF h, of "''confirmed''"] show ?thesis by simp
qed

text \<open>
  C9: for an id that a stored reservation has and any string \<open>s\<close>,
  \<^verbatim>\<open>update_booking_status\<close> succeeds; the first reservation with that id gets status
  \<open>s\<close>, its other fields and all other reservations stay as they were.
\<close>

theorem C9_status_overwrite:
  assumes "booking_id \<in> id' ` set bs"
  shows "\<exists>pre b post. bs = pre @ b # post \<and> id' b = booking_id
           \<and> booking_id \<notin> id' ` set pre
           \<and> update_booking_status bs booking_id s
               = (Inr ''updated'', pre @ b\<lparr>status := s\<rparr> # post)"
proof -
  from assms have "\<exists>x\<in>set bs. id' x = booking_id" by auto
  then obtain pre b post where split: "bs = pre @ b # post" and hit: "id' b = booking_id"
    and first: "\<forall>y\<in>set pre. id' y \<noteq> booking_id"
    using split_list_first_prop [of bs "\<lambda>x. id' x = booking_id"] by blast
  from first have absent: "booking_id \<notin> id' ` set pre" by auto
  then have "update_one bs booking_id s = (1, pre @ b\<lparr>status := s\<rparr> # post)"
    unfolding split using hit by (rule update_one_first)
  then have "update_booking_status bs booking_id s
               = (Inr ''updated'', pre @ b\<lparr>status := s\<rparr> # post)"
    by (simp add: update_booking_status_def)
  with split hit absent show ?thesis by blast
qed

theorem C9_status_overwrite_witness:
  "''A'' \<in> id' ` set [booking_of_requester 12, booking_A]
   \<and> update_booking_status [booking_of_requester 12, booking_A] ''A'' ''lost in transit''
       = (Inr ''updated'',
          [booking_of_requester 12, booking_A\<lparr>status := ''lost in transit''\<rparr>])"
proof -
  have h: "''A'' \<in> id' ` set [booking_of_requester 12, booking_A]"
    by (simp add: booking_A_def)
  from C9_status_overwrite [OF h, of "''lost in transit''"]
  obtain pre b post where split: "[booking_of_requester 12, booking_A] = pre @ b # post"
    and hit: "id' b = ''A''" and absent: "''A'' \<notin> id' ` set pre"
    and upd: "update_booking_status [booking_of_requester 12, booking_A] ''A'' ''lost in transit''
               = (Inr ''updated'', pre @ b\<lparr>status := ''lost in transit''\<rparr> # post)"
    by blast
  from split hit have "pre = [booking_of_requester 12] \<and> b = booking_A \<and> post = []"
    by (cases pre; cases "tl pre") (auto simp: booking_of_requester_def)
  with upd h show ?thesis by simp
qed

text \<open>
  C10: a \<^verbatim>\<open>masks_N\<close> callback replaces the requester's session by one that holds the
  quantity only, whatever it held before and whatever \<open>N\<close> is; the sessions of all other
  requesters and the collection are unchanged.
\<close>

theorem C10_masks_resets_session:
  "user_sessions (snd (handle_callback st today uid (Masks n))) =
     (user_sessions st)(uid \<mapsto> \<lparr>s_masks_count = Some n, s_days_count = None, s_start_date = None\<rparr>)
   \<and> (\<forall>u. u \<noteq> uid \<longrightarrow>
         user_sessions (snd (handle_callback st today uid (Masks n))) u = user_sessions st u)
   \<and> bookings (snd (handle_callback st today uid (Masks n))) = bookings st"
  by (simp add: Let_def split: sum.splits)

theorem C10_masks_resets_session_witness:
  "(3 :: int) \<noteq> 7
   \<and> user_sessions (snd (handle_callback state_two_requesters 8 7 (Masks 2))) 7
       = Some \<lparr>s_masks_count = Some 2, s_days_count = None, s_start_date = None\<rparr>
   \<and> user_sessions (snd (handle_callback state_two_requesters 8 7 (Masks 2))) 3
       = Some \<lparr>s_masks_count = Some 2, s_days_count = Some 1, s_start_date = None\<rparr>
   \<and> bookings (snd (handle_callback state_two_requesters 8 7 (Masks 2))) = [booking_A]"
proof -
  have h: "(3 :: int) \<noteq> 7" by simp
  have s: "user_sessions state_two_requesters 3
       = Some \<lparr>s_masks_count = Some 2, s_days_count = Some 1, s_start_date = None\<rparr>"
    and b: "bookings state_two_requesters = [booking_A]"
    by (simp_all add: state_two_requesters_def)
  from h s b C10_masks_resets_session [of state_two_requesters 8 7 2]
  show ?thesis by simp
qed

end
